theory Spec2Isabelle
  imports Main
begin

section \<open>The tag algebra\<close>

text \<open>
  Modelled from the spec: the header \<^verbatim>\<open>nvbench/exec_tag.cuh\<close>, which declares the
  execution tags and the two masks, is not among the sources. The specification fixes a
  closed set of six recognised flags, two measurement selectors (cold, hot) and four
  modifiers (timer, sync, run_once, no_block); a tag set is a union of recognised flags,
  the masks are the unions of the flags of each group, and tag sets are combined and
  split bitwise. A tag set is therefore a set of flags: \<open>|\<close> is union, \<open>&\<close> is
  intersection, and a tag set converts to \<open>true\<close> exactly when it is not empty. Every
  value of the type is well formed, and no bit pattern outside the six flags exists.
\<close>

datatype exec_flag = Timer | No_block | Sync | Run_once | Cold | Hot

type_synonym exec_tag = "exec_flag set"

definition timer :: exec_tag where
  "timer = {Timer}"

definition no_block :: exec_tag where
  "no_block = {No_block}"

definition sync :: exec_tag where
  "sync = {Sync}"

definition run_once :: exec_tag where
  "run_once = {Run_once}"

definition cold :: exec_tag where
  "cold = {Cold}"

definition hot :: exec_tag where
  "hot = {Hot}"

definition modifier_mask :: exec_tag where
  "modifier_mask = timer \<union> no_block \<union> sync \<union> run_once"

definition measure_mask :: exec_tag where
  "measure_mask = cold \<union> hot"

section \<open>The benchmark state and what a call of exec does\<close>

text \<open>
  Modelled from the spec: \<^verbatim>\<open>nvbench/state.cuh\<close> is not among the sources either.
  \<^verbatim>\<open>state::exec\<close> reads three booleans of the state and nothing else.
\<close>

record state =
  get_run_once :: bool
  get_disable_blocking_kernel :: bool
  is_skipped :: bool

text \<open>
  The measurement classes and the timer wrapper are external. What \<^verbatim>\<open>exec\<close> does with
  them is recorded as a trace: which launcher a strategy is built over (the caller's own
  \<^verbatim>\<open>KL\<close>, or \<^verbatim>\<open>kernel_launch_timer_wrapper<KL>\<close>), the template argument
  \<^verbatim>\<open>use_blocking_kernel\<close>, and the order of the wrapper's construction, the strategy's
  construction and its invocation. \<open>Enter tags\<close> records that the specialisation of
  \<^verbatim>\<open>exec\<close> for \<open>tags\<close> was called.
\<close>

datatype 'kl launcher = caller_launcher 'kl | kernel_launch_timer_wrapper 'kl

datatype 'kl measure_t =
    measure_cold "'kl launcher" bool
  | measure_hot "'kl launcher" bool

datatype 'kl event =
    Enter exec_tag
  | Wrap 'kl
  | Construct "'kl measure_t"
  | Invoke "'kl measure_t"

text \<open>
  The two static assertions of the hot branch. They stand inside
  \<^verbatim>\<open>if constexpr (tags & hot)\<close>, so they are tested only in a specialisation whose tag
  set has the hot selector; the list holds the assertions that fail, in source order.
\<close>

datatype static_assertion = Hot_with_sync | Hot_with_timer

definition hot_static_asserts :: "exec_tag \<Rightarrow> static_assertion list" where
  "hot_static_asserts tags =
     (if tags \<inter> hot \<noteq> {} then
        (if tags \<inter> sync \<noteq> {} then [Hot_with_sync] else []) @
        (if tags \<inter> timer \<noteq> {} then [Hot_with_timer] else [])
      else [])"

text \<open>The block \<^verbatim>\<open>if constexpr (tags & cold) { ... }\<close>.\<close>

definition cold_measurement :: "exec_tag \<Rightarrow> 'kl \<Rightarrow> 'kl event list" where
  "cold_measurement tags kernel_launcher =
     (if tags \<inter> cold \<noteq> {} then
        (let use_blocking_kernel = (tags \<inter> no_block = {}) in
         if tags \<inter> timer \<noteq> {} then
           (let measure = measure_cold (caller_launcher kernel_launcher) use_blocking_kernel
            in [Construct measure, Invoke measure])
         else
           (let wrapper = kernel_launch_timer_wrapper kernel_launcher;
                measure = measure_cold wrapper use_blocking_kernel
            in [Wrap kernel_launcher, Construct measure, Invoke measure]))
      else [])"

text \<open>
  The run-time statements of the block \<^verbatim>\<open>if constexpr (tags & hot) { ... }\<close>; its static
  assertions are \<^const>\<open>hot_static_asserts\<close>.
\<close>

definition hot_measurement :: "exec_tag \<Rightarrow> 'kl \<Rightarrow> 'kl event list" where
  "hot_measurement tags kernel_launcher =
     (if tags \<inter> hot \<noteq> {} then
        (let use_blocking_kernel = (tags \<inter> no_block = {});
             measure = measure_hot (caller_launcher kernel_launcher) use_blocking_kernel
         in [Construct measure, Invoke measure])
      else [])"

text \<open>
  One call frame of \<^verbatim>\<open>state::exec\<close>: the statements of the body in source order. A
  frame either calls \<^verbatim>\<open>exec\<close> again with another tag set and returns at once
  (\<open>Recurse\<close>), or returns after the listed events (\<open>Return\<close>).
\<close>

datatype 'kl frame = Recurse exec_tag | Return "'kl event list"

definition exec_frame :: "state \<Rightarrow> exec_tag \<Rightarrow> 'kl \<Rightarrow> 'kl frame" where
  "exec_frame st tags kernel_launcher =
     (let measure_tags = tags \<inter> measure_mask;
          modifier_tags = tags \<inter> modifier_mask
      in
      if modifier_tags \<inter> run_once = {} \<and> get_run_once st then
        (let run_once_tags = modifier_tags \<union> cold \<union> run_once in Recurse run_once_tags)
      else if modifier_tags \<inter> no_block = {} \<and> get_disable_blocking_kernel st then
        (let no_block_tags = tags \<union> no_block in Recurse no_block_tags)
      else if measure_tags = {} then
        (if modifier_tags \<inter> (timer \<union> sync) \<noteq> {} then Recurse (cold \<union> tags)
         else Recurse (cold \<union> hot \<union> tags))
      else if is_skipped st then Return []
      else Return (cold_measurement tags kernel_launcher @ hot_measurement tags kernel_launcher))"

text \<open>
  The number of normalisation steps that still apply to a tag set in a given state. It
  is the termination measure of \<^verbatim>\<open>exec\<close>.
\<close>

definition pending :: "state \<Rightarrow> exec_tag \<Rightarrow> nat" where
  "pending st tags =
     (if tags \<inter> no_block = {} \<and> get_disable_blocking_kernel st then 1 else 0) +
     (if (tags \<inter> run_once = {} \<and> get_run_once st) \<or> tags \<inter> measure_mask = {} then 1 else 0)"

text \<open>
  \<^verbatim>\<open>state::exec\<close>. A static assertion is tested when the specialisation is
  instantiated, before any statement of it runs and whatever the state holds, so the
  model tests it on entry: \<open>Inl\<close> is the compile-time rejection. Otherwise the frame
  runs, and a recursive call contributes its own trace.
\<close>

function exec :: "state \<Rightarrow> exec_tag \<Rightarrow> 'kl \<Rightarrow> static_assertion list + 'kl event list" where
  "exec st tags kernel_launcher =
     (if hot_static_asserts tags \<noteq> [] then Inl (hot_static_asserts tags)
      else
        (case exec_frame st tags kernel_launcher of
           Recurse tags' \<Rightarrow>
             (case exec st tags' kernel_launcher of
                Inl failed \<Rightarrow> Inl failed
              | Inr events \<Rightarrow> Inr (Enter tags # events))
         | Return events \<Rightarrow> Inr (Enter tags # events)))"
  by pat_completeness auto
termination
  by (relation "measure (\<lambda>(st, tags, kl). pending st tags)")
    (auto simp: exec_frame_def pending_def timer_def no_block_def sync_def run_once_def
      cold_def hot_def modifier_mask_def measure_mask_def Let_def split: if_splits)

text \<open>Reading a trace: the tag sets of the frames entered, and the strategy events.\<close>

fun entered :: "'kl event list \<Rightarrow> exec_tag list" where
  "entered [] = []"
| "entered (Enter tags # events) = tags # entered events"
| "entered (_ # events) = entered events"

fun strategy_events :: "'kl event list \<Rightarrow> 'kl event list" where
  "strategy_events [] = []"
| "strategy_events (Enter tags # events) = strategy_events events"
| "strategy_events (e # events) = e # strategy_events events"

text \<open>
  The tag set of the frame that ends the resolution: the last specialisation entered.
  A call rejected at compile time has none.
\<close>

fun resolved :: "static_assertion list + 'kl event list \<Rightarrow> exec_tag option" where
  "resolved (Inl failed) = None"
| "resolved (Inr events) =
     (if entered events = [] then None else Some (last (entered events)))"

text \<open>
  A tag set is fully resolved for a state when none of the three guards of the body
  that lead to a recursive call holds: the frame carrying it goes on to the skip check
  and to the construction of the strategies.
\<close>

definition fully_resolved :: "state \<Rightarrow> exec_tag \<Rightarrow> bool" where
  "fully_resolved st tags =
     (\<not> (tags \<inter> modifier_mask \<inter> run_once = {} \<and> get_run_once st) \<and>
      \<not> (tags \<inter> modifier_mask \<inter> no_block = {} \<and> get_disable_blocking_kernel st) \<and>
      tags \<inter> measure_mask \<noteq> {})"

section \<open>Basic facts\<close>

declare exec.simps [simp del]

lemmas tag_defs =
  timer_def no_block_def sync_def run_once_def cold_def hot_def modifier_mask_def
  measure_mask_def

lemma pending_decreases:
  "exec_frame st tags kl = Recurse tags' \<Longrightarrow> pending st tags' < pending st tags"
  by (auto simp: exec_frame_def pending_def tag_defs Let_def split: if_splits)


lemma exec_rejected:
  "hot_static_asserts tags \<noteq> [] \<Longrightarrow> exec st tags kl = Inl (hot_static_asserts tags)"
  by (subst exec.simps) simp

lemma exec_Return:
  "hot_static_asserts tags = [] \<Longrightarrow> exec_frame st tags kl = Return events \<Longrightarrow>
   exec st tags kl = Inr (Enter tags # events)"
  by (subst exec.simps) simp

lemma exec_Recurse:
  "hot_static_asserts tags = [] \<Longrightarrow> exec_frame st tags kl = Recurse tags' \<Longrightarrow>
   exec st tags' kl = Inr events \<Longrightarrow> exec st tags kl = Inr (Enter tags # events)"
  by (subst exec.simps) simp

text \<open>
  A specialisation that passes its static assertions only ever calls specialisations
  that pass theirs, so a call that compiles is never rejected further down.
\<close>

lemma asserts_preserved:
  "hot_static_asserts tags = [] \<Longrightarrow> exec_frame st tags kl = Recurse tags' \<Longrightarrow>
   hot_static_asserts tags' = []"
  by (auto simp: exec_frame_def hot_static_asserts_def tag_defs Let_def split: if_splits)

text \<open>
  The two normalisation calls stand in run-time conditionals, so their callees are
  instantiated whatever the state holds, and the defaulting call whenever the selector
  component is empty. None of them can fail a static assertion that the caller passes:
  testing the assertions of the frames that run is testing those of every
  specialisation the call instantiates.
\<close>

lemma callees_compile:
  assumes "hot_static_asserts tags = []"
  shows "hot_static_asserts (tags \<inter> modifier_mask \<union> cold \<union> run_once) = []"
    and "hot_static_asserts (tags \<union> no_block) = []"
    and "tags \<inter> measure_mask = {} \<Longrightarrow>
         hot_static_asserts
           (if tags \<inter> modifier_mask \<inter> (timer \<union> sync) \<noteq> {} then cold \<union> tags
            else cold \<union> hot \<union> tags) = []"
  using assms by (auto simp: hot_static_asserts_def tag_defs split: if_splits)

lemma exec_returns:
  "hot_static_asserts tags = [] \<Longrightarrow> \<exists>events. exec st tags kl = Inr events"
proof (induction st tags kl rule: exec.induct)
  case (1 st tags kl)
  note ok = \<open>hot_static_asserts tags = []\<close>
  show ?case
  proof (cases "exec_frame st tags kl")
    case (Recurse tags')
    have "hot_static_asserts tags' = []"
      using ok Recurse by (rule asserts_preserved)
    moreover have "hot_static_asserts tags \<noteq> [] \<Longrightarrow> False"
      using ok by simp
    ultimately obtain events where "exec st tags' kl = Inr events"
      using "1.IH" [OF _ Recurse] by blast
    then have "exec st tags kl = Inr (Enter tags # events)"
      by (rule exec_Recurse [OF ok Recurse])
    then show ?thesis ..
  next
    case (Return events)
    have "exec st tags kl = Inr (Enter tags # events)"
      using ok Return by (rule exec_Return)
    then show ?thesis ..
  qed
qed

lemma fully_resolved_iff:
  "fully_resolved st tags \<longleftrightarrow> (\<forall>tags'. exec_frame st tags kl \<noteq> Recurse tags')"
  by (auto simp: fully_resolved_def exec_frame_def Let_def)

lemma entered_append: "entered (xs @ ys) = entered xs @ entered ys"
  by (induction xs rule: entered.induct) simp_all

lemma strategy_events_append:
  "strategy_events (xs @ ys) = strategy_events xs @ strategy_events ys"
  by (induction xs rule: strategy_events.induct) simp_all

lemma entered_measurement:
  "entered (cold_measurement tags kl) = []" "entered (hot_measurement tags kl) = []"
  by (simp_all add: cold_measurement_def hot_measurement_def Let_def)

lemma strategy_events_measurement:
  "strategy_events (cold_measurement tags kl) = cold_measurement tags kl"
  "strategy_events (hot_measurement tags kl) = hot_measurement tags kl"
  by (simp_all add: cold_measurement_def hot_measurement_def Let_def)

lemma exec_frame_Return:
  "exec_frame st tags kl = Return events \<Longrightarrow>
   fully_resolved st tags \<and>
   events = (if is_skipped st then []
             else cold_measurement tags kl @ hot_measurement tags kl)"
  by (auto simp: exec_frame_def fully_resolved_def Let_def split: if_splits)

lemma exec_Inr_cases:
  assumes "exec st tags kl = Inr events"
  obtains (Recurse) tags' events' where "hot_static_asserts tags = []"
      and "exec_frame st tags kl = Recurse tags'" and "exec st tags' kl = Inr events'"
      and "events = Enter tags # events'"
    | (Return) "hot_static_asserts tags = []"
      and "exec_frame st tags kl = Return (if is_skipped st then []
             else cold_measurement tags kl @ hot_measurement tags kl)"
      and "fully_resolved st tags"
      and "events = Enter tags # (if is_skipped st then []
             else cold_measurement tags kl @ hot_measurement tags kl)"
proof -
  from assms have ok: "hot_static_asserts tags = []"
    by (subst (asm) exec.simps) (simp split: if_splits)
  show thesis
  proof (cases "exec_frame st tags kl")
    case (Recurse tags')
    from assms ok Recurse obtain events' where
      "exec st tags' kl = Inr events'" "events = Enter tags # events'"
      by (subst (asm) exec.simps) (auto split: sum.splits)
    with ok Recurse show thesis
      by (rule that(1))
  next
    case (Return evs)
    from assms ok Return have "events = Enter tags # evs"
      by (subst (asm) exec.simps) auto
    with ok Return exec_frame_Return [OF Return] show thesis
      by (intro that(2)) auto
  qed
qed


lemma exec_final:
  assumes "exec st tags kl = Inr events"
  shows "\<exists>final. resolved (Inr events) = Some final \<and> fully_resolved st final \<and>
           hot_static_asserts final = [] \<and>
           strategy_events events =
             (if is_skipped st then []
              else cold_measurement final kl @ hot_measurement final kl)"
  using assms
proof (induction st tags kl arbitrary: events rule: exec.induct)
  case (1 st tags kl)
  from "1.prems" show ?case
  proof (cases rule: exec_Inr_cases)
    case (Recurse tags' events')
    with "1.IH" [of tags' events'] obtain final where
      "resolved (Inr events') = Some final" "fully_resolved st final"
      "hot_static_asserts final = []"
      "strategy_events events' =
         (if is_skipped st then [] else cold_measurement final kl @ hot_measurement final kl)"
      by auto
    with Recurse show ?thesis
      by (auto split: if_splits)
  next
    case Return
    then show ?thesis
      by (simp add: entered_append entered_measurement strategy_events_append
          strategy_events_measurement)
  qed
qed

section \<open>Run-once normalisation\<close>

text \<open>
  C1. For every tag set without the \<open>run_once\<close> modifier, when the state reports that
  run-once is requested, the call frame makes exactly one recursive call, with the tag
  set \<open>modifier_tags | cold | run_once\<close>, and returns: nothing else of the body runs in
  that frame. The selector component of the tag set passed on is \<open>cold\<close> alone, whatever
  selectors the caller gave. For a tag set that compiles, the trace of the whole call is
  the entry of this frame followed by the trace of that one recursive call.
\<close>

theorem exec_run_once_normalization:
  assumes "tags \<inter> run_once = {}" and "get_run_once st"
  shows "exec_frame st tags kl = Recurse (tags \<inter> modifier_mask \<union> cold \<union> run_once) \<and>
         (tags \<inter> modifier_mask \<union> cold \<union> run_once) \<inter> measure_mask = cold \<and>
         (hot_static_asserts tags = [] \<longrightarrow>
            (\<exists>events. exec st (tags \<inter> modifier_mask \<union> cold \<union> run_once) kl = Inr events \<and>
                      exec st tags kl = Inr (Enter tags # events)))"
proof -
  let ?callee = "tags \<inter> modifier_mask \<union> cold \<union> run_once"
  have frame: "exec_frame st tags kl = Recurse ?callee"
    using assms by (auto simp: exec_frame_def tag_defs Let_def)
  have selectors: "?callee \<inter> measure_mask = cold"
    by (auto simp: tag_defs)
  have whole: "\<exists>events. exec st ?callee kl = Inr events \<and>
                 exec st tags kl = Inr (Enter tags # events)"
    if ok: "hot_static_asserts tags = []"
  proof -
    from ok frame have "hot_static_asserts ?callee = []"
      by (rule asserts_preserved)
    then obtain events where callee: "exec st ?callee kl = Inr events"
      using exec_returns [of ?callee st kl] by blast
    have "exec st tags kl = Inr (Enter tags # events)"
      using ok frame callee by (rule exec_Recurse)
    with callee show ?thesis
      by blast
  qed
  from frame selectors whole show ?thesis
    by blast
qed

theorem exec_run_once_normalization_witness:
  "hot \<inter> run_once = {} \<and>
   get_run_once \<lparr>get_run_once = True, get_disable_blocking_kernel = False, is_skipped = False\<rparr> \<and>
   hot_static_asserts hot = [] \<and>
   exec_frame \<lparr>get_run_once = True, get_disable_blocking_kernel = False, is_skipped = False\<rparr>
     hot (0::nat) = Recurse (cold \<union> run_once) \<and>
   (cold \<union> run_once) \<inter> measure_mask = cold \<and>
   exec \<lparr>get_run_once = True, get_disable_blocking_kernel = False, is_skipped = False\<rparr>
     hot (0::nat) =
     Inr [Enter hot, Enter (cold \<union> run_once), Wrap 0,
          Construct (measure_cold (kernel_launch_timer_wrapper 0) True),
          Invoke (measure_cold (kernel_launch_timer_wrapper 0) True)]"
proof -
  let ?st = "\<lparr>get_run_once = True, get_disable_blocking_kernel = False, is_skipped = False\<rparr>"
  have absent: "hot \<inter> run_once = {}"
    by (simp add: tag_defs)
  have requested: "get_run_once ?st"
    by simp
  have ok: "hot_static_asserts hot = []"
    by (simp add: hot_static_asserts_def tag_defs)
  have callee: "hot \<inter> modifier_mask \<union> cold \<union> run_once = cold \<union> run_once"
    by (simp add: tag_defs)
  have run: "exec ?st (cold \<union> run_once) (0::nat) =
      Inr [Enter (cold \<union> run_once), Wrap 0,
           Construct (measure_cold (kernel_launch_timer_wrapper 0) True),
           Invoke (measure_cold (kernel_launch_timer_wrapper 0) True)]"
    by code_simp
  from exec_run_once_normalization [OF absent requested, of "0::nat"] ok callee run
  show ?thesis
    using absent requested by simp
qed

section \<open>Blocking-kernel normalisation\<close>

text \<open>
  C8. For every tag set without the \<open>no_block\<close> modifier, when the state reports that
  the blocking kernel is disabled and the run-once normalisation does not apply in this
  frame, the frame makes exactly one recursive call, with \<open>tags | no_block\<close>, and
  returns. Every bit of the caller's tag set is kept, and \<open>no_block\<close> is the only bit
  added. For a tag set that compiles, the trace of the whole call is the entry of this
  frame followed by the trace of that recursive call.
\<close>

theorem exec_no_block_normalization:
  assumes "tags \<inter> no_block = {}" and "get_disable_blocking_kernel st"
    and "\<not> (tags \<inter> run_once = {} \<and> get_run_once st)"
  shows "exec_frame st tags kl = Recurse (tags \<union> no_block) \<and>
         tags \<subseteq> tags \<union> no_block \<and>
         (tags \<union> no_block) - tags = no_block \<and>
         (hot_static_asserts tags = [] \<longrightarrow>
            (\<exists>events. exec st (tags \<union> no_block) kl = Inr events \<and>
                      exec st tags kl = Inr (Enter tags # events)))"
proof -
  have frame: "exec_frame st tags kl = Recurse (tags \<union> no_block)"
    using assms by (auto simp: exec_frame_def tag_defs Let_def)
  have added: "(tags \<union> no_block) - tags = no_block"
    using assms(1) by auto
  have whole: "\<exists>events. exec st (tags \<union> no_block) kl = Inr events \<and>
                 exec st tags kl = Inr (Enter tags # events)"
    if ok: "hot_static_asserts tags = []"
  proof -
    from ok frame have "hot_static_asserts (tags \<union> no_block) = []"
      by (rule asserts_preserved)
    then obtain events where callee: "exec st (tags \<union> no_block) kl = Inr events"
      using exec_returns [of "tags \<union> no_block" st kl] by blast
    have "exec st tags kl = Inr (Enter tags # events)"
      using ok frame callee by (rule exec_Recurse)
    with callee show ?thesis
      by blast
  qed
  from frame added whole show ?thesis
    by blast
qed

theorem exec_no_block_normalization_witness:
  "(cold \<union> timer) \<inter> no_block = {} \<and>
   get_disable_blocking_kernel
     \<lparr>get_run_once = False, get_disable_blocking_kernel = True, is_skipped = False\<rparr> \<and>
   \<not> get_run_once
     \<lparr>get_run_once = False, get_disable_blocking_kernel = True, is_skipped = False\<rparr> \<and>
   hot_static_asserts (cold \<union> timer) = [] \<and>
   exec_frame \<lparr>get_run_once = False, get_disable_blocking_kernel = True, is_skipped = False\<rparr>
     (cold \<union> timer) (0::nat) = Recurse (cold \<union> timer \<union> no_block) \<and>
   (cold \<union> timer \<union> no_block) - (cold \<union> timer) = no_block \<and>
   exec \<lparr>get_run_once = False, get_disable_blocking_kernel = True, is_skipped = False\<rparr>
     (cold \<union> timer) (0::nat) =
     Inr [Enter (cold \<union> timer), Enter (cold \<union> timer \<union> no_block),
          Construct (measure_cold (caller_launcher 0) False),
          Invoke (measure_cold (caller_launcher 0) False)]"
proof -
  let ?st = "\<lparr>get_run_once = False, get_disable_blocking_kernel = True, is_skipped = False\<rparr>"
  have absent: "(cold \<union> timer) \<inter> no_block = {}"
    by (simp add: tag_defs)
  have disabled: "get_disable_blocking_kernel ?st"
    by simp
  have not_first: "\<not> ((cold \<union> timer) \<inter> run_once = {} \<and> get_run_once ?st)"
    by simp
  have ok: "hot_static_asserts (cold \<union> timer) = []"
    by (simp add: hot_static_asserts_def tag_defs)
  have run: "exec ?st (cold \<union> timer \<union> no_block) (0::nat) =
      Inr [Enter (cold \<union> timer \<union> no_block),
           Construct (measure_cold (caller_launcher 0) False),
           Invoke (measure_cold (caller_launcher 0) False)]"
    by code_simp
  from exec_no_block_normalization [OF absent disabled not_first, of "0::nat"] ok run
  show ?thesis
    using absent by simp
qed

section \<open>Selector defaulting\<close>





section \<open>Termination of the resolution\<close>

lemma pending_le: "pending st tags \<le> 2"
  by (simp add: pending_def)

lemma entered_bound:
  "exec st tags kl = Inr events \<Longrightarrow> length (entered events) \<le> Suc (pending st tags)"
proof (induction st tags kl arbitrary: events rule: exec.induct)
  case (1 st tags kl)
  from "1.prems" show ?case
  proof (cases rule: exec_Inr_cases)
    case (Recurse tags' events')
    with "1.IH" [of tags' events'] have "length (entered events') \<le> Suc (pending st tags')"
      by simp
    moreover have "pending st tags' < pending st tags"
      using Recurse(2) by (rule pending_decreases)
    ultimately show ?thesis
      using Recurse(4) by simp
  next
    case Return
    then show ?thesis
      by (simp add: entered_append entered_measurement)
  qed
qed

text \<open>
  C3, as the claim states it, fails in one point: a recursive step does not always pass
  a more specific tag set. The run-once step passes \<open>modifier_tags | cold | run_once\<close>,
  which leaves out the caller's hot selector: from \<open>cold | hot\<close> it goes to
  \<open>cold | run_once\<close>, which is not a superset of the caller's tag set and has as many
  bits as it, so counting bits does not bound the recursion.
\<close>

theorem exec_more_specific_counterexample:
  "exec_frame \<lparr>get_run_once = True, get_disable_blocking_kernel = False, is_skipped = False\<rparr>
     (cold \<union> hot) (0::nat) = Recurse (cold \<union> run_once) \<and>
   \<not> (cold \<union> hot \<subseteq> cold \<union> run_once) \<and>
   (cold \<union> hot) - (cold \<union> run_once) = hot \<and>
   card (cold \<union> run_once) = card (cold \<union> hot)"
  by (simp add: exec_frame_def tag_defs Let_def insert_commute)

text \<open>
  C3, amended. For every tag set and every state the chain of recursive calls of
  \<^verbatim>\<open>exec\<close> ends, after at most two recursive calls (three frames). Each recursive
  step passes a tag set with at least one bit that the caller's set lacks, among
  \<open>run_once\<close>, \<open>no_block\<close>, \<open>cold\<close> and \<open>hot\<close>; it keeps every modifier of the
  caller, and the only bit it can leave out is the hot selector. A step other than the
  run-once step passes a strict superset. Each step lowers the number of normalisations
  that still apply, which is at most two.
\<close>

theorem exec_terminates:
  "(exec_frame st tags kl = Recurse tags' \<longrightarrow>
      tags' - tags \<noteq> {} \<and>
      tags' - tags \<subseteq> run_once \<union> no_block \<union> cold \<union> hot \<and>
      tags \<inter> modifier_mask \<subseteq> tags' \<and>
      tags - tags' \<subseteq> hot \<and>
      (\<not> (tags \<inter> run_once = {} \<and> get_run_once st) \<longrightarrow> tags \<subset> tags') \<and>
      pending st tags' < pending st tags) \<and>
   pending st tags \<le> 2 \<and>
   (hot_static_asserts tags = [] \<longrightarrow>
      (\<exists>events. exec st tags kl = Inr events \<and> length (entered events) \<le> 3)) \<and>
   (hot_static_asserts tags \<noteq> [] \<longrightarrow> exec st tags kl = Inl (hot_static_asserts tags))"
proof -
  have step: "tags' - tags \<noteq> {} \<and>
      tags' - tags \<subseteq> run_once \<union> no_block \<union> cold \<union> hot \<and>
      tags \<inter> modifier_mask \<subseteq> tags' \<and>
      tags - tags' \<subseteq> hot \<and>
      (\<not> (tags \<inter> run_once = {} \<and> get_run_once st) \<longrightarrow> tags \<subset> tags')"
    if frame: "exec_frame st tags kl = Recurse tags'"
  proof -
    have adds: "tags' - tags \<noteq> {}"
      using frame by (auto simp: exec_frame_def tag_defs Let_def split: if_splits)
    have which: "tags' - tags \<subseteq> run_once \<union> no_block \<union> cold \<union> hot"
      using frame by (auto simp: exec_frame_def tag_defs Let_def split: if_splits)
    have keeps: "tags \<inter> modifier_mask \<subseteq> tags'"
      using frame by (auto simp: exec_frame_def tag_defs Let_def split: if_splits)
    have "x = Hot" if "x \<in> tags" and "x \<notin> tags'" for x
      using frame that
      by (cases x) (auto simp: exec_frame_def tag_defs Let_def split: if_splits)
    then have drops: "tags - tags' \<subseteq> hot"
      by (auto simp: hot_def)
    have grows: "tags \<subset> tags'" if "\<not> (tags \<inter> run_once = {} \<and> get_run_once st)"
      using frame that by (auto simp: exec_frame_def tag_defs Let_def split: if_splits)
    from adds which keeps drops grows show ?thesis
      by blast
  qed
  have returns: "\<exists>events. exec st tags kl = Inr events \<and> length (entered events) \<le> 3"
    if ok: "hot_static_asserts tags = []"
  proof -
    from ok obtain events where run: "exec st tags kl = Inr events"
      using exec_returns [of tags st kl] by blast
    then have "length (entered events) \<le> Suc (pending st tags)"
      by (rule entered_bound)
    with pending_le [of st tags] have "length (entered events) \<le> 3"
      by simp
    with run show ?thesis
      by blast
  qed
  from step pending_decreases [of st tags kl tags'] pending_le [of st tags] returns
    exec_rejected [of tags st kl]
  show ?thesis
    by blast
qed

theorem exec_terminates_witness:
  "exec_frame \<lparr>get_run_once = True, get_disable_blocking_kernel = True, is_skipped = False\<rparr>
     (cold \<union> hot) (0::nat) = Recurse (cold \<union> run_once) \<and>
   (cold \<union> run_once) - (cold \<union> hot) \<noteq> {} \<and>
   (cold \<union> hot) - (cold \<union> run_once) \<subseteq> hot \<and>
   pending \<lparr>get_run_once = True, get_disable_blocking_kernel = True, is_skipped = False\<rparr>
     (cold \<union> run_once) <
   pending \<lparr>get_run_once = True, get_disable_blocking_kernel = True, is_skipped = False\<rparr>
     (cold \<union> hot) \<and>
   hot_static_asserts (cold \<union> hot) = [] \<and>
   (\<exists>events.
      exec \<lparr>get_run_once = True, get_disable_blocking_kernel = True, is_skipped = False\<rparr>
        (cold \<union> hot) (0::nat) = Inr events \<and> length (entered events) \<le> 3) \<and>
   exec_frame \<lparr>get_run_once = False, get_disable_blocking_kernel = True, is_skipped = False\<rparr>
     timer (0::nat) = Recurse (timer \<union> no_block) \<and>
   timer \<subset> timer \<union> no_block"
proof -
  let ?both = "\<lparr>get_run_once = True, get_disable_blocking_kernel = True, is_skipped = False\<rparr>"
  let ?block = "\<lparr>get_run_once = False, get_disable_blocking_kernel = True, is_skipped = False\<rparr>"
  have first: "exec_frame ?both (cold \<union> hot) (0::nat) = Recurse (cold \<union> run_once)"
    by (simp add: exec_frame_def tag_defs Let_def insert_commute)
  have second: "exec_frame ?block timer (0::nat) = Recurse (timer \<union> no_block)"
    by (simp add: exec_frame_def tag_defs Let_def insert_commute)
  have ok: "hot_static_asserts (cold \<union> hot) = []"
    by (simp add: hot_static_asserts_def tag_defs)
  have guard: "\<not> (timer \<inter> run_once = {} \<and> get_run_once ?block)"
    by simp
  from exec_terminates [of ?both "cold \<union> hot" "0::nat" "cold \<union> run_once"]
    exec_terminates [of ?block timer "0::nat" "timer \<union> no_block"] first second ok guard
  show ?thesis
    by simp
qed

section \<open>The measurement branches\<close>

text \<open>
  C4. For every tag set that has the hot selector: if it also has \<open>sync\<close> or \<open>timer\<close>,
  a static assertion of the hot branch fails, and the call is rejected at compile time
  whatever the state holds. If it has neither, both assertions hold, and the hot branch
  constructs the hot strategy over the caller's launcher, with \<open>use_blocking_kernel\<close>
  the absence of \<open>no_block\<close>, and invokes it; a frame that carries such a tag set fully
  resolved, in a state that is not skipped, ends with exactly these two events.
\<close>

theorem hot_branch_static_asserts:
  assumes "tags \<inter> hot \<noteq> {}"
  shows "(tags \<inter> sync \<noteq> {} \<or> tags \<inter> timer \<noteq> {} \<longrightarrow>
            hot_static_asserts tags \<noteq> [] \<and>
            exec st tags kl = Inl (hot_static_asserts tags)) \<and>
         (tags \<inter> sync = {} \<and> tags \<inter> timer = {} \<longrightarrow>
            hot_static_asserts tags = [] \<and>
            hot_measurement tags kl =
              [Construct (measure_hot (caller_launcher kl) (tags \<inter> no_block = {})),
               Invoke (measure_hot (caller_launcher kl) (tags \<inter> no_block = {}))] \<and>
            (fully_resolved st tags \<and> \<not> is_skipped st \<longrightarrow>
               exec st tags kl =
                 Inr (Enter tags # cold_measurement tags kl @
                   [Construct (measure_hot (caller_launcher kl) (tags \<inter> no_block = {})),
                    Invoke (measure_hot (caller_launcher kl) (tags \<inter> no_block = {}))])))"
proof -
  have rejected: "hot_static_asserts tags \<noteq> [] \<and> exec st tags kl = Inl (hot_static_asserts tags)"
    if "tags \<inter> sync \<noteq> {} \<or> tags \<inter> timer \<noteq> {}"
  proof -
    from assms that have "hot_static_asserts tags \<noteq> []"
      by (auto simp: hot_static_asserts_def)
    then show ?thesis
      by (simp add: exec_rejected)
  qed
  have ok: "hot_static_asserts tags = []" if "tags \<inter> sync = {} \<and> tags \<inter> timer = {}"
    using that by (simp add: hot_static_asserts_def)
  have branch: "hot_measurement tags kl =
      [Construct (measure_hot (caller_launcher kl) (tags \<inter> no_block = {})),
       Invoke (measure_hot (caller_launcher kl) (tags \<inter> no_block = {}))]"
    using assms by (simp add: hot_measurement_def Let_def)
  have whole: "exec st tags kl =
      Inr (Enter tags # cold_measurement tags kl @
        [Construct (measure_hot (caller_launcher kl) (tags \<inter> no_block = {})),
         Invoke (measure_hot (caller_launcher kl) (tags \<inter> no_block = {}))])"
    if "tags \<inter> sync = {} \<and> tags \<inter> timer = {}" and "fully_resolved st tags \<and> \<not> is_skipped st"
  proof -
    from that(2) have "exec_frame st tags kl =
        Return (cold_measurement tags kl @ hot_measurement tags kl)"
      by (auto simp: fully_resolved_def exec_frame_def Let_def)
    with ok [OF that(1)] have "exec st tags kl =
        Inr (Enter tags # cold_measurement tags kl @ hot_measurement tags kl)"
      by (rule exec_Return)
    with branch show ?thesis
      by simp
  qed
  from rejected ok branch whole show ?thesis
    by blast
qed

theorem hot_branch_static_asserts_witness:
  "(hot \<union> timer) \<inter> hot \<noteq> {} \<and> (hot \<union> timer) \<inter> timer \<noteq> {} \<and>
   exec \<lparr>get_run_once = True, get_disable_blocking_kernel = False, is_skipped = True\<rparr>
     (hot \<union> timer) (0::nat) = Inl [Hot_with_timer] \<and>
   (hot \<union> sync) \<inter> hot \<noteq> {} \<and> (hot \<union> sync) \<inter> sync \<noteq> {} \<and>
   exec \<lparr>get_run_once = False, get_disable_blocking_kernel = False, is_skipped = False\<rparr>
     (hot \<union> sync) (0::nat) = Inl [Hot_with_sync] \<and>
   hot \<inter> hot \<noteq> {} \<and> hot \<inter> sync = {} \<and> hot \<inter> timer = {} \<and>
   fully_resolved \<lparr>get_run_once = False, get_disable_blocking_kernel = False, is_skipped = False\<rparr>
     hot \<and>
   hot_static_asserts hot = [] \<and>
   exec \<lparr>get_run_once = False, get_disable_blocking_kernel = False, is_skipped = False\<rparr>
     hot (0::nat) =
     Inr [Enter hot, Construct (measure_hot (caller_launcher 0) True),
          Invoke (measure_hot (caller_launcher 0) True)]"
proof -
  let ?quiet = "\<lparr>get_run_once = False, get_disable_blocking_kernel = False, is_skipped = False\<rparr>"
  let ?other = "\<lparr>get_run_once = True, get_disable_blocking_kernel = False, is_skipped = True\<rparr>"
  have sel: "(hot \<union> timer) \<inter> hot \<noteq> {}" "(hot \<union> sync) \<inter> hot \<noteq> {}" "hot \<inter> hot \<noteq> {}"
    by (simp_all add: tag_defs)
  have mods: "(hot \<union> timer) \<inter> timer \<noteq> {}" "(hot \<union> sync) \<inter> sync \<noteq> {}"
    "hot \<inter> sync = {}" "hot \<inter> timer = {}" "hot \<inter> no_block = {}" "hot \<inter> cold = {}"
    by (simp_all add: tag_defs)
  have failed: "hot_static_asserts (hot \<union> timer) = [Hot_with_timer]"
    "hot_static_asserts (hot \<union> sync) = [Hot_with_sync]"
    by (simp_all add: hot_static_asserts_def tag_defs)
  have resolved: "fully_resolved ?quiet hot"
    by (simp add: fully_resolved_def tag_defs)
  from hot_branch_static_asserts [OF sel(1), of ?other "0::nat"]
    hot_branch_static_asserts [OF sel(2), of ?quiet "0::nat"]
    hot_branch_static_asserts [OF sel(3), of ?quiet "0::nat"]
    sel mods failed resolved
  show ?thesis
    by (simp add: cold_measurement_def)
qed

text \<open>
  C5. For every tag set that has the cold selector, the cold branch does the following.
  With the \<open>timer\<close> modifier it constructs the cold strategy over the caller's launcher,
  and no wrapper is made. Without it, it first wraps the launcher in the kernel-launch
  timer wrapper and constructs the cold strategy over the wrapper. In both cases the
  strategy is invoked exactly once, and \<open>use_blocking_kernel\<close> is the absence of
  \<open>no_block\<close>. A call of \<^verbatim>\<open>exec\<close> with such a tag set that compiles and is fully
  resolved, in a state that is not skipped, enters one frame and starts its work with
  exactly these events; what follows them is the hot branch.
\<close>

theorem cold_branch_wrapper_selection:
  assumes "tags \<inter> cold \<noteq> {}"
  shows "(tags \<inter> timer \<noteq> {} \<longrightarrow>
            cold_measurement tags kl =
              [Construct (measure_cold (caller_launcher kl) (tags \<inter> no_block = {})),
               Invoke (measure_cold (caller_launcher kl) (tags \<inter> no_block = {}))]) \<and>
         (tags \<inter> timer = {} \<longrightarrow>
            cold_measurement tags kl =
              [Wrap kl,
               Construct (measure_cold (kernel_launch_timer_wrapper kl) (tags \<inter> no_block = {})),
               Invoke (measure_cold (kernel_launch_timer_wrapper kl) (tags \<inter> no_block = {}))]) \<and>
         length (filter (\<lambda>e. \<exists>launcher blocking. e = Invoke (measure_cold launcher blocking))
           (cold_measurement tags kl @ hot_measurement tags kl)) = 1 \<and>
         (fully_resolved st tags \<and> \<not> is_skipped st \<longrightarrow>
            exec_frame st tags kl =
              Return (cold_measurement tags kl @ hot_measurement tags kl)) \<and>
         (hot_static_asserts tags = [] \<and> fully_resolved st tags \<and> \<not> is_skipped st \<longrightarrow>
            (tags \<inter> timer \<noteq> {} \<longrightarrow>
               exec st tags kl =
                 Inr (Enter tags #
                   [Construct (measure_cold (caller_launcher kl) (tags \<inter> no_block = {})),
                    Invoke (measure_cold (caller_launcher kl) (tags \<inter> no_block = {}))] @
                   hot_measurement tags kl)) \<and>
            (tags \<inter> timer = {} \<longrightarrow>
               exec st tags kl =
                 Inr (Enter tags #
                   [Wrap kl,
                    Construct (measure_cold (kernel_launch_timer_wrapper kl)
                      (tags \<inter> no_block = {})),
                    Invoke (measure_cold (kernel_launch_timer_wrapper kl)
                      (tags \<inter> no_block = {}))] @
                   hot_measurement tags kl)) \<and>
            (\<exists>events. exec st tags kl = Inr events \<and>
               length (filter (\<lambda>e. \<exists>launcher blocking. e = Invoke (measure_cold launcher blocking))
                 events) = 1))"
proof -
  have direct: "cold_measurement tags kl =
      [Construct (measure_cold (caller_launcher kl) (tags \<inter> no_block = {})),
       Invoke (measure_cold (caller_launcher kl) (tags \<inter> no_block = {}))]"
    if "tags \<inter> timer \<noteq> {}"
    using assms that by (simp add: cold_measurement_def Let_def)
  have wrapped: "cold_measurement tags kl =
      [Wrap kl,
       Construct (measure_cold (kernel_launch_timer_wrapper kl) (tags \<inter> no_block = {})),
       Invoke (measure_cold (kernel_launch_timer_wrapper kl) (tags \<inter> no_block = {}))]"
    if "tags \<inter> timer = {}"
    using assms that by (simp add: cold_measurement_def Let_def)
  have once: "length (filter (\<lambda>e. \<exists>launcher blocking. e = Invoke (measure_cold launcher blocking))
      (cold_measurement tags kl @ hot_measurement tags kl)) = 1"
    using assms by (simp add: cold_measurement_def hot_measurement_def Let_def)
  have frame: "exec_frame st tags kl = Return (cold_measurement tags kl @ hot_measurement tags kl)"
    if "fully_resolved st tags \<and> \<not> is_skipped st"
    using that by (auto simp: fully_resolved_def exec_frame_def Let_def)
  have call: "exec st tags kl =
      Inr (Enter tags # cold_measurement tags kl @ hot_measurement tags kl)"
    if "hot_static_asserts tags = [] \<and> fully_resolved st tags \<and> \<not> is_skipped st"
  proof -
    from that have "hot_static_asserts tags = []"
      by simp
    moreover from that have
      "exec_frame st tags kl = Return (cold_measurement tags kl @ hot_measurement tags kl)"
      by (simp add: frame)
    ultimately show ?thesis
      by (rule exec_Return)
  qed
  have call_direct: "exec st tags kl =
      Inr (Enter tags #
        [Construct (measure_cold (caller_launcher kl) (tags \<inter> no_block = {})),
         Invoke (measure_cold (caller_launcher kl) (tags \<inter> no_block = {}))] @
        hot_measurement tags kl)"
    if "hot_static_asserts tags = [] \<and> fully_resolved st tags \<and> \<not> is_skipped st"
      and "tags \<inter> timer \<noteq> {}"
    using call [OF that(1)] direct [OF that(2)] by simp
  have call_wrapped: "exec st tags kl =
      Inr (Enter tags #
        [Wrap kl,
         Construct (measure_cold (kernel_launch_timer_wrapper kl) (tags \<inter> no_block = {})),
         Invoke (measure_cold (kernel_launch_timer_wrapper kl) (tags \<inter> no_block = {}))] @
        hot_measurement tags kl)"
    if "hot_static_asserts tags = [] \<and> fully_resolved st tags \<and> \<not> is_skipped st"
      and "tags \<inter> timer = {}"
    using call [OF that(1)] wrapped [OF that(2)] by simp
  have call_once: "\<exists>events. exec st tags kl = Inr events \<and>
      length (filter (\<lambda>e. \<exists>launcher blocking. e = Invoke (measure_cold launcher blocking))
        events) = 1"
    if "hot_static_asserts tags = [] \<and> fully_resolved st tags \<and> \<not> is_skipped st"
  proof -
    have "length (filter (\<lambda>e. \<exists>launcher blocking. e = Invoke (measure_cold launcher blocking))
        (Enter tags # cold_measurement tags kl @ hot_measurement tags kl)) = 1"
      using once by simp
    with call [OF that] show ?thesis
      by blast
  qed
  from direct wrapped once frame call_direct call_wrapped call_once show ?thesis
    by blast
qed

theorem cold_branch_wrapper_selection_witness:
  "(cold \<union> timer \<union> no_block) \<inter> cold \<noteq> {} \<and> (cold \<union> timer \<union> no_block) \<inter> timer \<noteq> {} \<and>
   cold_measurement (cold \<union> timer \<union> no_block) (0::nat) =
     [Construct (measure_cold (caller_launcher 0) False),
      Invoke (measure_cold (caller_launcher 0) False)] \<and>
   cold \<inter> cold \<noteq> {} \<and> cold \<inter> timer = {} \<and>
   cold_measurement cold (0::nat) =
     [Wrap 0, Construct (measure_cold (kernel_launch_timer_wrapper 0) True),
      Invoke (measure_cold (kernel_launch_timer_wrapper 0) True)] \<and>
   fully_resolved \<lparr>get_run_once = False, get_disable_blocking_kernel = False, is_skipped = False\<rparr>
     cold \<and>
   exec_frame \<lparr>get_run_once = False, get_disable_blocking_kernel = False, is_skipped = False\<rparr>
     cold (0::nat) =
     Return [Wrap 0, Construct (measure_cold (kernel_launch_timer_wrapper 0) True),
       Invoke (measure_cold (kernel_launch_timer_wrapper 0) True)] \<and>
   hot_static_asserts cold = [] \<and>
   exec \<lparr>get_run_once = False, get_disable_blocking_kernel = False, is_skipped = False\<rparr>
     cold (0::nat) =
     Inr [Enter cold, Wrap 0, Construct (measure_cold (kernel_launch_timer_wrapper 0) True),
       Invoke (measure_cold (kernel_launch_timer_wrapper 0) True)] \<and>
   hot_static_asserts (cold \<union> timer \<union> no_block) = [] \<and>
   fully_resolved \<lparr>get_run_once = True, get_disable_blocking_kernel = True, is_skipped = False\<rparr>
     (cold \<union> timer \<union> no_block \<union> run_once) \<and>
   exec \<lparr>get_run_once = True, get_disable_blocking_kernel = True, is_skipped = False\<rparr>
     (cold \<union> timer \<union> no_block \<union> run_once) (0::nat) =
     Inr [Enter (cold \<union> timer \<union> no_block \<union> run_once),
       Construct (measure_cold (caller_launcher 0) False),
       Invoke (measure_cold (caller_launcher 0) False)]"
proof -
  let ?quiet = "\<lparr>get_run_once = False, get_disable_blocking_kernel = False, is_skipped = False\<rparr>"
  let ?both = "\<lparr>get_run_once = True, get_disable_blocking_kernel = True, is_skipped = False\<rparr>"
  let ?manual = "cold \<union> timer \<union> no_block \<union> run_once"
  have sel: "(cold \<union> timer \<union> no_block) \<inter> cold \<noteq> {}" "cold \<inter> cold \<noteq> {}"
    "?manual \<inter> cold \<noteq> {}"
    by (simp_all add: tag_defs)
  have mods: "(cold \<union> timer \<union> no_block) \<inter> timer \<noteq> {}" "cold \<inter> timer = {}"
    "(cold \<union> timer \<union> no_block) \<inter> no_block \<noteq> {}" "cold \<inter> no_block = {}" "cold \<inter> hot = {}"
    "?manual \<inter> timer \<noteq> {}" "?manual \<inter> no_block \<noteq> {}" "?manual \<inter> hot = {}"
    by (simp_all add: tag_defs)
  have ok: "hot_static_asserts cold = []" "hot_static_asserts (cold \<union> timer \<union> no_block) = []"
    "hot_static_asserts ?manual = []"
    by (simp_all add: hot_static_asserts_def tag_defs)
  have resolved: "fully_resolved ?quiet cold" "fully_resolved ?both ?manual"
    by (simp_all add: fully_resolved_def tag_defs)
  have state: "\<not> is_skipped ?quiet" "\<not> is_skipped ?both"
    by simp_all
  from cold_branch_wrapper_selection [OF sel(1), of "0::nat" ?quiet]
    cold_branch_wrapper_selection [OF sel(2), of "0::nat" ?quiet]
    cold_branch_wrapper_selection [OF sel(3), of "0::nat" ?both] sel mods ok resolved state
  show ?thesis
    by (simp add: hot_measurement_def)
qed

section \<open>The skip check\<close>

text \<open>
  C6. For every tag set, if the state reports that it is skipped, the frame that gets to
  the skip check returns at once, before any strategy is constructed or invoked; and the
  whole call constructs and invokes nothing: its trace holds the frames entered and no
  strategy event. (A tag set rejected at compile time runs nothing either.)
\<close>

theorem skip_short_circuit:
  assumes "is_skipped st"
  shows "(fully_resolved st tags \<longrightarrow> exec_frame st tags kl = Return []) \<and>
         (hot_static_asserts tags = [] \<longrightarrow>
            (\<exists>events. exec st tags kl = Inr events \<and> strategy_events events = [] \<and>
                      events = map Enter (entered events))) \<and>
         (hot_static_asserts tags \<noteq> [] \<longrightarrow> exec st tags kl = Inl (hot_static_asserts tags))"
proof -
  have frame: "exec_frame st tags kl = Return []" if "fully_resolved st tags"
    using assms that by (auto simp: fully_resolved_def exec_frame_def Let_def)
  have whole: "\<exists>events. exec st tags kl = Inr events \<and> strategy_events events = [] \<and>
      events = map Enter (entered events)"
    if ok: "hot_static_asserts tags = []"
  proof -
    from ok obtain events where run: "exec st tags kl = Inr events"
      using exec_returns [of tags st kl] by blast
    with exec_final [OF run] assms have none: "strategy_events events = []"
      by auto
    have "xs = map Enter (entered xs)" if "strategy_events xs = []" for xs :: "'a event list"
      using that by (induction xs rule: strategy_events.induct) simp_all
    with none have "events = map Enter (entered events)"
      by blast
    with run none show ?thesis
      by blast
  qed
  from frame whole exec_rejected [of tags st kl] show ?thesis
    by blast
qed

theorem skip_short_circuit_witness:
  "is_skipped \<lparr>get_run_once = False, get_disable_blocking_kernel = True, is_skipped = True\<rparr> \<and>
   fully_resolved \<lparr>get_run_once = False, get_disable_blocking_kernel = True, is_skipped = True\<rparr>
     (cold \<union> hot \<union> no_block) \<and>
   exec_frame \<lparr>get_run_once = False, get_disable_blocking_kernel = True, is_skipped = True\<rparr>
     (cold \<union> hot \<union> no_block) (0::nat) = Return [] \<and>
   hot_static_asserts {} = [] \<and>
   (\<exists>events.
      exec \<lparr>get_run_once = False, get_disable_blocking_kernel = True, is_skipped = True\<rparr>
        {} (0::nat) = Inr events \<and>
      strategy_events events = [] \<and> events = map Enter (entered events)) \<and>
   exec \<lparr>get_run_once = False, get_disable_blocking_kernel = True, is_skipped = True\<rparr>
     {} (0::nat) = Inr [Enter {}, Enter no_block, Enter (cold \<union> hot \<union> no_block)]"
proof -
  let ?st = "\<lparr>get_run_once = False, get_disable_blocking_kernel = True, is_skipped = True\<rparr>"
  have skipped: "is_skipped ?st"
    by simp
  have resolved: "fully_resolved ?st (cold \<union> hot \<union> no_block)"
    by (simp add: fully_resolved_def tag_defs)
  have ok: "hot_static_asserts {} = []"
    by (simp add: hot_static_asserts_def)
  have run: "exec ?st {} (0::nat) = Inr [Enter {}, Enter no_block, Enter (cold \<union> hot \<union> no_block)]"
    by code_simp
  from skip_short_circuit [OF skipped, of "cold \<union> hot \<union> no_block" "0::nat"]
    skip_short_circuit [OF skipped, of "{}" "0::nat"] skipped resolved ok run
  show ?thesis
    by simp
qed

section \<open>Run-once and the hot selector\<close>

text \<open>
  C7, as the claim states it, fails in a state that is skipped: the resolution reaches
  \<open>cold | run_once\<close>, but the skip check of that frame returns before the cold
  strategy is constructed, so nothing is executed.
\<close>

theorem run_once_precedence_counterexample:
  "get_run_once \<lparr>get_run_once = True, get_disable_blocking_kernel = False, is_skipped = True\<rparr> \<and>
   exec \<lparr>get_run_once = True, get_disable_blocking_kernel = False, is_skipped = True\<rparr>
     hot (0::nat) = Inr [Enter hot, Enter (cold \<union> run_once)] \<and>
   strategy_events [Enter hot, Enter (cold \<union> run_once) :: nat event] = []"
  by code_simp

text \<open>
  C7, amended. If the state reports that run-once is requested and the caller invokes
  \<^verbatim>\<open>exec\<close> with the hot selector alone, the call enters the frame for \<open>hot\<close>, then
  the frame for \<open>cold | run_once\<close>, then, when the blocking kernel is disabled, the
  frame for \<open>cold | run_once | no_block\<close>. Unless the state is skipped, that last frame
  executes the cold strategy once, over the timer wrapper; when the state is skipped it
  executes nothing. The hot strategy is never constructed or invoked.
\<close>

theorem run_once_precedence:
  assumes "get_run_once st"
  shows "exec st hot kl =
           Inr ([Enter hot, Enter (cold \<union> run_once)] @
                (if get_disable_blocking_kernel st then [Enter (cold \<union> run_once \<union> no_block)]
                 else []) @
                (if is_skipped st then []
                 else [Wrap kl,
                       Construct (measure_cold (kernel_launch_timer_wrapper kl)
                         (\<not> get_disable_blocking_kernel st)),
                       Invoke (measure_cold (kernel_launch_timer_wrapper kl)
                         (\<not> get_disable_blocking_kernel st))]))"
proof -
  let ?final = "if get_disable_blocking_kernel st then cold \<union> run_once \<union> no_block
    else cold \<union> run_once"
  let ?work = "if is_skipped st then []
    else [Wrap kl,
          Construct (measure_cold (kernel_launch_timer_wrapper kl)
            (\<not> get_disable_blocking_kernel st)),
          Invoke (measure_cold (kernel_launch_timer_wrapper kl)
            (\<not> get_disable_blocking_kernel st))]"
  have ok: "hot_static_asserts hot = []" "hot_static_asserts (cold \<union> run_once) = []"
    "hot_static_asserts ?final = []"
    by (simp_all add: hot_static_asserts_def tag_defs)
  have "exec_frame st ?final kl = Return ?work"
    by (simp add: exec_frame_def cold_measurement_def hot_measurement_def tag_defs Let_def)
  with ok(3) have last: "exec st ?final kl = Inr (Enter ?final # ?work)"
    by (rule exec_Return)
  have middle: "exec st (cold \<union> run_once) kl =
      Inr (Enter (cold \<union> run_once) #
        (if get_disable_blocking_kernel st then [Enter (cold \<union> run_once \<union> no_block)] else []) @
        ?work)"
  proof (cases "get_disable_blocking_kernel st")
    case True
    then have "exec_frame st (cold \<union> run_once) kl = Recurse (cold \<union> run_once \<union> no_block)"
      by (simp add: exec_frame_def tag_defs Let_def)
    with ok(2) have "exec st (cold \<union> run_once) kl =
        Inr (Enter (cold \<union> run_once) # Enter (cold \<union> run_once \<union> no_block) # ?work)"
      using last True by (intro exec_Recurse) simp_all
    with True show ?thesis
      by simp
  next
    case False
    with last show ?thesis
      by simp
  qed
  have "exec_frame st hot kl = Recurse (cold \<union> run_once)"
    using assms by (simp add: exec_frame_def tag_defs Let_def)
  with ok(1) have "exec st hot kl = Inr (Enter hot # Enter (cold \<union> run_once) #
      (if get_disable_blocking_kernel st then [Enter (cold \<union> run_once \<union> no_block)] else []) @
      ?work)"
    using middle by (rule exec_Recurse)
  then show ?thesis
    by simp
qed

theorem run_once_precedence_witness:
  "get_run_once \<lparr>get_run_once = True, get_disable_blocking_kernel = True, is_skipped = False\<rparr> \<and>
   exec \<lparr>get_run_once = True, get_disable_blocking_kernel = True, is_skipped = False\<rparr>
     hot (0::nat) =
     Inr [Enter hot, Enter (cold \<union> run_once), Enter (cold \<union> run_once \<union> no_block), Wrap 0,
          Construct (measure_cold (kernel_launch_timer_wrapper 0) False),
          Invoke (measure_cold (kernel_launch_timer_wrapper 0) False)]"
proof -
  let ?st = "\<lparr>get_run_once = True, get_disable_blocking_kernel = True, is_skipped = False\<rparr>"
  have requested: "get_run_once ?st"
    by simp
  from run_once_precedence [OF requested, of "0::nat"] requested show ?thesis
    by simp
qed

text \<open>
  C10, as the claim states it, fails in a state that is skipped: the frame for
  \<open>run_once | hot\<close> returns at the skip check, and the hot strategy is neither
  constructed nor invoked. A tag set that has \<open>timer\<close> besides \<open>run_once\<close> and
  \<open>hot\<close> is rejected by the static assertion, and no strategy exists for it at all.
\<close>

theorem explicit_run_once_hot_counterexample:
  "(run_once \<union> hot) \<inter> run_once \<noteq> {} \<and> (run_once \<union> hot) \<inter> hot \<noteq> {} \<and>
   get_run_once \<lparr>get_run_once = True, get_disable_blocking_kernel = False, is_skipped = True\<rparr> \<and>
   exec \<lparr>get_run_once = True, get_disable_blocking_kernel = False, is_skipped = True\<rparr>
     (run_once \<union> hot) (0::nat) = Inr [Enter (run_once \<union> hot)] \<and>
   strategy_events [Enter (run_once \<union> hot) :: nat event] = [] \<and>
   exec \<lparr>get_run_once = True, get_disable_blocking_kernel = False, is_skipped = False\<rparr>
     (run_once \<union> hot \<union> timer) (0::nat) = Inl [Hot_with_timer]"
  by code_simp

text \<open>
  C10, amended. If the caller passes a tag set that has the \<open>run_once\<close> modifier
  together with the hot selector, and neither \<open>sync\<close> nor \<open>timer\<close> (a tag set with
  hot and one of them is rejected at compile time), then whatever the state holds the
  run-once normalisation does not apply, the only recursive call that can happen adds
  \<open>no_block\<close>, and every frame entered carries both \<open>hot\<close> and \<open>run_once\<close>: no
  step replaces hot by cold. Unless the state is skipped, the last frame ends by
  constructing and invoking the hot strategy, also when the state requests run-once;
  when the state is skipped nothing is constructed.
\<close>

theorem explicit_run_once_hot:
  assumes "tags \<inter> run_once \<noteq> {}" and "tags \<inter> hot \<noteq> {}"
    and "tags \<inter> sync = {}" and "tags \<inter> timer = {}"
  shows "exec_frame st tags kl \<noteq> Recurse (tags \<inter> modifier_mask \<union> cold \<union> run_once) \<and>
         (tags \<inter> no_block = {} \<and> get_disable_blocking_kernel st \<longrightarrow>
            exec st tags kl =
              Inr ([Enter tags, Enter (tags \<union> no_block)] @
                (if is_skipped st then []
                 else cold_measurement (tags \<union> no_block) kl @
                   [Construct (measure_hot (caller_launcher kl) False),
                    Invoke (measure_hot (caller_launcher kl) False)]))) \<and>
         (\<not> (tags \<inter> no_block = {} \<and> get_disable_blocking_kernel st) \<longrightarrow>
            exec st tags kl =
              Inr (Enter tags #
                (if is_skipped st then []
                 else cold_measurement tags kl @
                   [Construct (measure_hot (caller_launcher kl) (tags \<inter> no_block = {})),
                    Invoke (measure_hot (caller_launcher kl) (tags \<inter> no_block = {}))])))"
proof -
  have ok: "hot_static_asserts tags = []" "hot_static_asserts (tags \<union> no_block) = []"
    using assms by (auto simp: hot_static_asserts_def tag_defs)
  have not_run_once: "exec_frame st tags kl \<noteq> Recurse (tags \<inter> modifier_mask \<union> cold \<union> run_once)"
    using assms by (auto simp: exec_frame_def tag_defs Let_def)
  have final: "exec st t kl =
      Inr (Enter t #
        (if is_skipped st then []
         else cold_measurement t kl @
           [Construct (measure_hot (caller_launcher kl) (t \<inter> no_block = {})),
            Invoke (measure_hot (caller_launcher kl) (t \<inter> no_block = {}))]))"
    if "hot_static_asserts t = []" and "t \<inter> run_once \<noteq> {}" and "t \<inter> hot \<noteq> {}"
      and "\<not> (t \<inter> no_block = {} \<and> get_disable_blocking_kernel st)" for t
  proof -
    have "exec_frame st t kl =
        Return (if is_skipped st then []
          else cold_measurement t kl @
            [Construct (measure_hot (caller_launcher kl) (t \<inter> no_block = {})),
             Invoke (measure_hot (caller_launcher kl) (t \<inter> no_block = {}))])"
      using that(2-4) by (auto simp: exec_frame_def hot_measurement_def tag_defs Let_def)
    with that(1) show ?thesis
      by (rule exec_Return)
  qed
  have direct: "exec st tags kl =
      Inr (Enter tags #
        (if is_skipped st then []
         else cold_measurement tags kl @
           [Construct (measure_hot (caller_launcher kl) (tags \<inter> no_block = {})),
            Invoke (measure_hot (caller_launcher kl) (tags \<inter> no_block = {}))]))"
    if "\<not> (tags \<inter> no_block = {} \<and> get_disable_blocking_kernel st)"
    using ok(1) assms(1,2) that by (rule final)
  have via_no_block: "exec st tags kl =
      Inr ([Enter tags, Enter (tags \<union> no_block)] @
        (if is_skipped st then []
         else cold_measurement (tags \<union> no_block) kl @
           [Construct (measure_hot (caller_launcher kl) False),
            Invoke (measure_hot (caller_launcher kl) False)]))"
    if guard: "tags \<inter> no_block = {} \<and> get_disable_blocking_kernel st"
  proof -
    have frame: "exec_frame st tags kl = Recurse (tags \<union> no_block)"
      using assms(1) guard by (auto simp: exec_frame_def tag_defs Let_def)
    have "exec st (tags \<union> no_block) kl =
        Inr (Enter (tags \<union> no_block) #
          (if is_skipped st then []
           else cold_measurement (tags \<union> no_block) kl @
             [Construct (measure_hot (caller_launcher kl) ((tags \<union> no_block) \<inter> no_block = {})),
              Invoke (measure_hot (caller_launcher kl) ((tags \<union> no_block) \<inter> no_block = {}))]))"
      using ok(2) assms(1,2) by (intro final) (auto simp: tag_defs)
    then have "exec st (tags \<union> no_block) kl =
        Inr (Enter (tags \<union> no_block) #
          (if is_skipped st then []
           else cold_measurement (tags \<union> no_block) kl @
             [Construct (measure_hot (caller_launcher kl) False),
              Invoke (measure_hot (caller_launcher kl) False)]))"
      by (simp add: no_block_def)
    with ok(1) frame have "exec st tags kl =
        Inr (Enter tags # Enter (tags \<union> no_block) #
          (if is_skipped st then []
           else cold_measurement (tags \<union> no_block) kl @
             [Construct (measure_hot (caller_launcher kl) False),
              Invoke (measure_hot (caller_launcher kl) False)]))"
      by (rule exec_Recurse)
    then show ?thesis
      by simp
  qed
  from not_run_once direct via_no_block show ?thesis
    by blast
qed

theorem explicit_run_once_hot_witness:
  "(run_once \<union> hot) \<inter> run_once \<noteq> {} \<and> (run_once \<union> hot) \<inter> hot \<noteq> {} \<and>
   (run_once \<union> hot) \<inter> sync = {} \<and> (run_once \<union> hot) \<inter> timer = {} \<and>
   get_run_once \<lparr>get_run_once = True, get_disable_blocking_kernel = True, is_skipped = False\<rparr> \<and>
   exec_frame \<lparr>get_run_once = True, get_disable_blocking_kernel = True, is_skipped = False\<rparr>
     (run_once \<union> hot) (0::nat) \<noteq> Recurse (cold \<union> run_once) \<and>
   exec \<lparr>get_run_once = True, get_disable_blocking_kernel = True, is_skipped = False\<rparr>
     (run_once \<union> hot) (0::nat) =
     Inr [Enter (run_once \<union> hot), Enter (run_once \<union> hot \<union> no_block),
          Construct (measure_hot (caller_launcher 0) False),
          Invoke (measure_hot (caller_launcher 0) False)] \<and>
   exec \<lparr>get_run_once = True, get_disable_blocking_kernel = False, is_skipped = False\<rparr>
     (run_once \<union> hot) (0::nat) =
     Inr [Enter (run_once \<union> hot),
          Construct (measure_hot (caller_launcher 0) True),
          Invoke (measure_hot (caller_launcher 0) True)]"
proof -
  let ?both = "\<lparr>get_run_once = True, get_disable_blocking_kernel = True, is_skipped = False\<rparr>"
  let ?once = "\<lparr>get_run_once = True, get_disable_blocking_kernel = False, is_skipped = False\<rparr>"
  have tags: "(run_once \<union> hot) \<inter> run_once \<noteq> {}" "(run_once \<union> hot) \<inter> hot \<noteq> {}"
    "(run_once \<union> hot) \<inter> sync = {}" "(run_once \<union> hot) \<inter> timer = {}"
    by (simp_all add: tag_defs)
  have more: "(run_once \<union> hot) \<inter> no_block = {}" "(run_once \<union> hot) \<inter> cold = {}"
    "(run_once \<union> hot \<union> no_block) \<inter> cold = {}"
    "(run_once \<union> hot) \<inter> modifier_mask \<union> cold \<union> run_once = cold \<union> run_once"
    by (auto simp: tag_defs)
  from explicit_run_once_hot [OF tags, of ?both "0::nat"]
    explicit_run_once_hot [OF tags, of ?once "0::nat"] tags more
  show ?thesis
    by (simp add: cold_measurement_def)
qed

section \<open>The canonical tag set\<close>

lemma exec_Recurse_resolved:
  assumes "hot_static_asserts tags = []" and "exec_frame st tags kl = Recurse tags'"
  shows "resolved (exec st tags kl) = resolved (exec st tags' kl)"
proof -
  from assms have "hot_static_asserts tags' = []"
    by (rule asserts_preserved)
  then obtain events where callee: "exec st tags' kl = Inr events"
    using exec_returns [of tags' st kl] by blast
  then obtain rest where "events = Enter tags' # rest"
    by (cases rule: exec_Inr_cases) auto
  moreover have "exec st tags kl = Inr (Enter tags # events)"
    using assms callee by (rule exec_Recurse)
  ultimately show ?thesis
    using callee by simp
qed

lemma exec_Return_resolved:
  assumes "hot_static_asserts tags = []" and "fully_resolved st tags"
  shows "resolved (exec st tags kl) = Some tags"
proof -
  from assms(1) obtain events where run: "exec st tags kl = Inr events"
    using exec_returns [of tags st kl] by blast
  then show ?thesis
  proof (cases rule: exec_Inr_cases)
    case (Recurse tags' events')
    with assms(2) show ?thesis
      by (simp add: fully_resolved_iff [of st tags kl])
  next
    case Return
    with run show ?thesis
      by (simp add: entered_append entered_measurement)
  qed
qed

text \<open>
  C9. For every tag set that compiles and every state, the resolution is a function of
  the tag set and the three flags: it ends in one tag set, which is fully resolved, and
  resolving that tag set again gives it back; the strategies run are the branches of that
  tag set (none in a skipped state). The two normalisations commute as maps on tag sets.
  When the state has both the run-once and the disable-blocking flag, starting from the
  tag set with \<open>no_block\<close> already added, or (where run-once is absent) from the tag set
  the run-once step passes on, ends in the same tag set as starting from the caller's:
  which of the two normalisations is applied first makes no difference, and with both
  absent the result is \<open>modifier_tags | cold | run_once | no_block\<close>.
\<close>

theorem resolution_canonical:
  assumes "hot_static_asserts tags = []"
  shows "(\<exists>final events.
            exec st tags kl = Inr events \<and> resolved (exec st tags kl) = Some final \<and>
            fully_resolved st final \<and> resolved (exec st final kl) = Some final \<and>
            strategy_events events =
              (if is_skipped st then []
               else cold_measurement final kl @ hot_measurement final kl)) \<and>
         (tags \<union> no_block) \<inter> modifier_mask \<union> cold \<union> run_once =
           (tags \<inter> modifier_mask \<union> cold \<union> run_once) \<union> no_block \<and>
         (get_run_once st \<and> get_disable_blocking_kernel st \<longrightarrow>
            resolved (exec st (tags \<union> no_block) kl) = resolved (exec st tags kl) \<and>
            (tags \<inter> run_once = {} \<longrightarrow>
               resolved (exec st (tags \<inter> modifier_mask \<union> cold \<union> run_once) kl) =
                 resolved (exec st tags kl) \<and>
               resolved (exec st tags kl) =
                 Some (tags \<inter> modifier_mask \<union> cold \<union> run_once \<union> no_block)))"
proof -
  let ?R = "tags \<inter> modifier_mask \<union> cold \<union> run_once"
  let ?N = "tags \<union> no_block"
  let ?RN = "tags \<inter> modifier_mask \<union> cold \<union> run_once \<union> no_block"
  have canonical: "\<exists>final events.
      exec st tags kl = Inr events \<and> resolved (exec st tags kl) = Some final \<and>
      fully_resolved st final \<and> resolved (exec st final kl) = Some final \<and>
      strategy_events events =
        (if is_skipped st then [] else cold_measurement final kl @ hot_measurement final kl)"
  proof -
    from assms obtain events where run: "exec st tags kl = Inr events"
      using exec_returns [of tags st kl] by blast
    from exec_final [OF run] obtain final where final:
      "resolved (Inr events :: static_assertion list + 'a event list) = Some final"
      "fully_resolved st final" "hot_static_asserts final = []"
      "strategy_events events =
        (if is_skipped st then [] else cold_measurement final kl @ hot_measurement final kl)"
      by blast
    from final(3,2) have "resolved (exec st final kl) = Some final"
      by (rule exec_Return_resolved)
    with run final show ?thesis
      by auto
  qed
  have commute: "?N \<inter> modifier_mask \<union> cold \<union> run_once = ?R \<union> no_block"
    by (auto simp: tag_defs)
  have ok_N: "hot_static_asserts ?N = []"
    using assms by (auto simp: hot_static_asserts_def tag_defs split: if_splits)
  have ok_RN: "hot_static_asserts ?RN = []" and ok_R: "hot_static_asserts ?R = []"
    by (auto simp: hot_static_asserts_def tag_defs)
  have both: "resolved (exec st ?N kl) = resolved (exec st tags kl) \<and>
      (tags \<inter> run_once = {} \<longrightarrow>
         resolved (exec st ?R kl) = resolved (exec st tags kl) \<and>
         resolved (exec st tags kl) = Some ?RN)"
    if flags: "get_run_once st \<and> get_disable_blocking_kernel st"
  proof -
    from flags have end_RN: "resolved (exec st ?RN kl) = Some ?RN"
      by (intro exec_Return_resolved ok_RN) (auto simp: fully_resolved_def tag_defs)
    have via_R: "resolved (exec st ?R kl) = Some ?RN"
    proof (cases "tags \<inter> no_block = {}")
      case True
      with flags have "exec_frame st ?R kl = Recurse (?R \<union> no_block)"
        by (auto simp: exec_frame_def tag_defs Let_def)
      with ok_R have "resolved (exec st ?R kl) = resolved (exec st (?R \<union> no_block) kl)"
        by (rule exec_Recurse_resolved)
      with end_RN show ?thesis
        by simp
    next
      case False
      then have "?R = ?RN"
        by (auto simp: tag_defs)
      with end_RN show ?thesis
        by simp
    qed
    show ?thesis
    proof (cases "tags \<inter> run_once = {}")
      case True
      with flags have "exec_frame st tags kl = Recurse ?R"
        by (auto simp: exec_frame_def tag_defs Let_def)
      with assms have from_tags: "resolved (exec st tags kl) = resolved (exec st ?R kl)"
        by (rule exec_Recurse_resolved)
      from True flags have "exec_frame st ?N kl = Recurse (?N \<inter> modifier_mask \<union> cold \<union> run_once)"
        by (auto simp: exec_frame_def tag_defs Let_def)
      with ok_N have "resolved (exec st ?N kl) =
          resolved (exec st (?N \<inter> modifier_mask \<union> cold \<union> run_once) kl)"
        by (rule exec_Recurse_resolved)
      with commute end_RN have "resolved (exec st ?N kl) = Some ?RN"
        by simp
      with from_tags via_R True show ?thesis
        by simp
    next
      case False
      show ?thesis
      proof (cases "tags \<inter> no_block = {}")
        case True
        with False flags have "exec_frame st tags kl = Recurse ?N"
          by (auto simp: exec_frame_def tag_defs Let_def)
        with assms have "resolved (exec st tags kl) = resolved (exec st ?N kl)"
          by (rule exec_Recurse_resolved)
        with False show ?thesis
          by simp
      next
        case has_no_block: False
        then have "?N = tags"
          by (auto simp: tag_defs)
        with False show ?thesis
          by simp
      qed
    qed
  qed
  from canonical commute both show ?thesis
    by blast
qed

theorem resolution_canonical_witness:
  "hot_static_asserts hot = [] \<and> hot \<inter> run_once = {} \<and>
   fully_resolved \<lparr>get_run_once = True, get_disable_blocking_kernel = True, is_skipped = False\<rparr>
     (cold \<union> run_once \<union> no_block) \<and>
   resolved (exec \<lparr>get_run_once = True, get_disable_blocking_kernel = True, is_skipped = False\<rparr>
     hot (0::nat)) = Some (cold \<union> run_once \<union> no_block) \<and>
   resolved (exec \<lparr>get_run_once = True, get_disable_blocking_kernel = True, is_skipped = False\<rparr>
     (hot \<union> no_block) (0::nat)) = Some (cold \<union> run_once \<union> no_block) \<and>
   resolved (exec \<lparr>get_run_once = True, get_disable_blocking_kernel = True, is_skipped = False\<rparr>
     (cold \<union> run_once) (0::nat)) = Some (cold \<union> run_once \<union> no_block) \<and>
   resolved (exec \<lparr>get_run_once = True, get_disable_blocking_kernel = True, is_skipped = False\<rparr>
     (cold \<union> run_once \<union> no_block) (0::nat)) = Some (cold \<union> run_once \<union> no_block)"
proof -
  let ?st = "\<lparr>get_run_once = True, get_disable_blocking_kernel = True, is_skipped = False\<rparr>"
  have ok: "hot_static_asserts hot = []"
    by (simp add: hot_static_asserts_def tag_defs)
  have absent: "hot \<inter> run_once = {}"
    by (simp add: tag_defs)
  have passed: "hot \<inter> modifier_mask \<union> cold \<union> run_once = cold \<union> run_once"
    by (simp add: tag_defs)
  have resolved: "fully_resolved ?st (cold \<union> run_once \<union> no_block)"
    by (simp add: fully_resolved_def tag_defs)
  have again: "resolved (exec ?st (cold \<union> run_once \<union> no_block) (0::nat)) =
      Some (cold \<union> run_once \<union> no_block)"
    by code_simp
  from resolution_canonical [OF ok, of ?st "0::nat"] ok absent passed resolved again
  show ?thesis
    by simp
qed

end
